theory Spec2Isabelle
  imports Main "HOL-Library.Word"
begin

section \<open>Requests, responses, filters and handlers\<close>

text \<open>
  The part of \<^verbatim>\<open>net/url.URL\<close> that the server reads and writes: the path and the
  host. Go strings are byte strings, as HOL's \<^typ>\<open>string\<close>.
\<close>

record url =
  Path :: string
  Host :: string

text \<open>The path variables captured by the router for the matched route.\<close>

type_synonym indexer = "(string \<times> string) list"

text \<open>
  An inbound request. \<open>RequestHost\<close> is \<^verbatim>\<open>http.Request.Host\<close>. \<open>webSocket\<close> is the verdict
  of the external \<^verbatim>\<open>websocket.IsWebSocketRequest\<close> on the request's headers. \<open>vars\<close> is
  the indexer the request wrapper is initialised with.
\<close>

record request =
  Method :: string
  URL :: url
  RequestHost :: string
  webSocket :: bool
  vars :: indexer

text \<open>
  The response under construction: the reported status, the content type header and
  what was written so far.
\<close>

record response =
  status :: nat
  respContentType :: string
  body :: "string list"

text \<open>
  \<^verbatim>\<open>FilterChain func(Request, Response)\<close>: a link acts on the response. A nil function
  value is \<open>None\<close> of the option type. A filter receives the link it wraps and decides
  itself whether, and with which request and response, to invoke it.
\<close>

type_synonym FilterChain = "request \<Rightarrow> response \<Rightarrow> response"

type_synonym Filter = "request \<Rightarrow> response \<Rightarrow> FilterChain \<Rightarrow> response"

text \<open>\<^verbatim>\<open>Handler.Handler(method)\<close> gives the function for a method, or nil.\<close>

type_synonym Handler = "string \<Rightarrow> FilterChain option"

type_synonym WebSocketHandler = "request \<Rightarrow> response \<Rightarrow> response"

text \<open>
  A task handler receives the payload (\<^verbatim>\<open>interface{}\<close>, here any type \<open>'v\<close>) and acts on
  the application's state \<open>'w\<close>.
\<close>

type_synonym ('v, 'w) TaskHandler = "'v \<Rightarrow> 'w \<Rightarrow> 'w"

text \<open>
  The \<^verbatim>\<open>Router\<close> interface is implemented outside the files at hand; the server only
  calls its match operations, which are the fields here.
\<close>

record ('v, 'w) Router =
  MatchHandlerFilters :: "url \<Rightarrow> Handler option \<times> indexer \<times> Filter list"
  MatchWebSocketHandler :: "url \<Rightarrow> WebSocketHandler option \<times> indexer"
  MatchTaskHandler :: "url \<Rightarrow> ('v, 'w) TaskHandler option"

section \<open>The server\<close>

text \<open>\<^verbatim>\<open>net.Listener\<close> as far as the server uses it: it accepts until it is closed.\<close>

datatype Listener = Accepting | ListenerClosed

text \<open>The subsystems released by \<^verbatim>\<open>Destroy\<close>, in the order of the calls.\<close>

datatype subsystem = RootFiltersSub | RouterSub | ComponentManagerSub

type_synonym conn = nat

text \<open>
  \<^verbatim>\<open>Server\<close>. \<open>state\<close> is the \<^verbatim>\<open>int32\<close> status word, \<open>activeConns\<close> the counter of the
  \<^verbatim>\<open>sync.WaitGroup\<close>, \<open>listener\<close> is nil (\<open>None\<close>) until \<^verbatim>\<open>Start\<close> has stored it.
  \<open>RootFilters\<close> is \<^verbatim>\<open>RootFilters.Filters\<close>, \<open>checker\<close> the verdict of the handshake
  checker handed to the external \<^verbatim>\<open>websocket.UpgradeWebsocket\<close>. Two fields record
  effects on collaborators: \<open>closedConns\<close> the connections on which \<^verbatim>\<open>Close\<close> was called,
  \<open>released\<close> the subsystems on which \<^verbatim>\<open>Destroy\<close> was called.
\<close>

record ('v, 'w) Server =
  Router :: "('v, 'w) Router"
  RootFilters :: "url \<Rightarrow> Filter list"
  checker :: "request \<Rightarrow> bool"
  contentType :: string
  listener :: "Listener option"
  state :: "32 word"
  activeConns :: int
  closedConns :: "conn list"
  released :: "subsystem list"

definition NORMAL :: "32 word" where
  "NORMAL = 0"

definition DESTROYED :: "32 word" where
  "DESTROYED = 1"

definition CONTENTTYPE_DISABLE :: string where
  "CONTENTTYPE_DISABLE = ''-''"

definition StatusNotFound :: nat where
  "StatusNotFound = 404"

definition StatusMethodNotAllowed :: nat where
  "StatusMethodNotAllowed = 405"

section \<open>Dispatch of a request\<close>

text \<open>
  Modelled from the spec: the methods of \<^verbatim>\<open>Response\<close> (its file is not among the
  sources). \<^verbatim>\<open>ReportStatus\<close> records the status of the response, \<^verbatim>\<open>ReportNotFound\<close> and
  \<^verbatim>\<open>ReportMethodNotAllowed\<close> report "not found" and "method not allowed",
  \<^verbatim>\<open>SetContentType\<close> sets the content type header.
\<close>

definition ReportStatus :: "nat \<Rightarrow> response \<Rightarrow> response" where
  "ReportStatus code resp = resp\<lparr>status := code\<rparr>"

definition ReportNotFound :: "response \<Rightarrow> response" where
  "ReportNotFound = ReportStatus StatusNotFound"

definition ReportMethodNotAllowed :: "response \<Rightarrow> response" where
  "ReportMethodNotAllowed = ReportStatus StatusMethodNotAllowed"

definition SetContentType :: "string \<Rightarrow> response \<Rightarrow> response" where
  "SetContentType ct resp = resp\<lparr>respContentType := ct\<rparr>"

text \<open>
  Modelled from the spec: \<^verbatim>\<open>newFilterChain(filters, handler)\<close> (the filter file is not
  among the sources). Each filter wraps the next, the last filter wraps the handler; with
  no filter the chain is the handler itself. A nil handler is a link that does nothing.
\<close>

fun newFilterChain :: "Filter list \<Rightarrow> FilterChain option \<Rightarrow> FilterChain" where
  "newFilterChain [] None = (\<lambda>req resp. resp)"
| "newFilterChain [] (Some handler) = handler"
| "newFilterChain (f # filters) handler =
     (\<lambda>req resp. f req resp (newFilterChain filters handler))"

text \<open>
  \<^verbatim>\<open>Server.serveHTTP\<close> of package \<^verbatim>\<open>zerver\<close>. The host of the request is stored in its
  URL, the router is asked for handler, path variables and route filters, request and
  response wrappers are initialised, and the content type is set unless disabled. With no
  handler "not found" is reported, with no function for the method "method not allowed";
  in both cases \<open>chain\<close> stays nil. Then the root filters around the route filters
  around \<open>chain\<close> are run. (Pooling and the destruction of the wrappers leave the
  response as it is.)
\<close>

definition serveHTTP :: "('v, 'w) Server \<Rightarrow> response \<Rightarrow> request \<Rightarrow> response" where
  "serveHTTP s w request =
     (let url = (URL request)\<lparr>Host := RequestHost request\<rparr>;
          (handler, indexer, filters) = MatchHandlerFilters (Router s) url;
          req = request\<lparr>URL := url, vars := indexer\<rparr>;
          resp = (if contentType s \<noteq> CONTENTTYPE_DISABLE
                  then SetContentType (contentType s) w else w);
          (chain, resp) =
            (case handler of
               None \<Rightarrow> (None, ReportNotFound resp)
             | Some h \<Rightarrow>
                 (case h (Method req) of
                    None \<Rightarrow> (None, ReportMethodNotAllowed resp)
                  | Some c \<Rightarrow> (Some c, resp)))
      in newFilterChain (RootFilters s url) (Some (newFilterChain filters chain)) req resp)"

text \<open>
  \<^verbatim>\<open>Server.serveWebSocket\<close>: without a handler the status 404 is written; otherwise the
  connection is upgraded, and the handler runs when the upgrade succeeded.
\<close>

definition serveWebSocket :: "('v, 'w) Server \<Rightarrow> response \<Rightarrow> request \<Rightarrow> response" where
  "serveWebSocket s w request =
     (let (handler, indexer) = MatchWebSocketHandler (Router s) (URL request)
      in case handler of
           None \<Rightarrow> w\<lparr>status := StatusNotFound\<rparr>
         | Some h \<Rightarrow>
             (if checker s request then h (request\<lparr>vars := indexer\<rparr>) w else w))"

text \<open>
  \<^verbatim>\<open>Server.ServeHTTP\<close>: a path longer than one byte whose last byte is a slash loses that
  byte; then the request goes to the web socket or to the HTTP branch.
\<close>

definition ServeHTTP :: "('v, 'w) Server \<Rightarrow> response \<Rightarrow> request \<Rightarrow> response" where
  "ServeHTTP s w request =
     (let path = Path (URL request);
          l = length path;
          request = (if l > 1 \<and> path ! (l - 1) = CHR ''/''
                     then request\<lparr>URL := (URL request)\<lparr>Path := take (l - 1) path\<rparr>\<rparr>
                     else request)
      in if webSocket request then serveWebSocket s w request else serveHTTP s w request)"

text \<open>
  \<^verbatim>\<open>Server.serveHTTP\<close> of package \<^verbatim>\<open>zerver_rest\<close>, whose server is its router: a route
  without a function for the method reports 405, a route with one runs the function,
  behind the route filters if there are any; no route reports 404.
\<close>

definition serveHTTP_rest :: "('v, 'w) Router \<Rightarrow> response \<Rightarrow> request \<Rightarrow> response" where
  "serveHTTP_rest s w request =
     (let url = (URL request)\<lparr>Host := RequestHost request\<rparr>;
          (handler, indexer, filters) = MatchHandlerFilters s url;
          req = request\<lparr>URL := url, vars := indexer\<rparr>;
          resp = w
      in case handler of
           Some h \<Rightarrow>
             (case h (Method req) of
                None \<Rightarrow> ReportStatus StatusMethodNotAllowed resp
              | Some handlerFunc \<Rightarrow>
                  (if length filters = 0 then handlerFunc req resp
                   else newFilterChain filters (Some handlerFunc) req resp))
         | None \<Rightarrow> ReportStatus StatusNotFound resp)"

section \<open>Tasks\<close>

text \<open>
  What a goroutine started with \<^verbatim>\<open>go\<close> will do once it is scheduled: the call it was
  started with.
\<close>

datatype 'v goroutine = GoAddTask string 'v | GoPanic string

text \<open>
  The state a task can touch: the application's state, and the goroutines started and
  not yet run.
\<close>

record ('v, 'w) runtime =
  app :: 'w
  goroutines :: "'v goroutine list"

datatype panic = NoTaskHandler string | NilListener | NegativeWaitGroupCounter

text \<open>
  \<^verbatim>\<open>Server.StartTask\<close> of package \<^verbatim>\<open>zerver\<close>: the handler matched for the path is called
  with the value, in the caller's own goroutine; without a handler the logger panics.
\<close>

definition StartTask ::
  "('v, 'w) Server \<Rightarrow> string \<Rightarrow> 'v \<Rightarrow> ('v, 'w) runtime \<Rightarrow> panic + ('v, 'w) runtime" where
  "StartTask s path v rt =
     (case MatchTaskHandler (Router s) \<lparr>Path = path, Host = []\<rparr> of
        None \<Rightarrow> Inl (NoTaskHandler path)
      | Some handler \<Rightarrow> Inr (rt\<lparr>app := handler v (app rt)\<rparr>))"

text \<open>
  \<^verbatim>\<open>Server.AddTask\<close> of package \<^verbatim>\<open>zerver_rest\<close>: \<^verbatim>\<open>go s.addTask(path, req)\<close> starts a
  goroutine and returns.
\<close>

definition AddTask :: "string \<Rightarrow> 'v \<Rightarrow> ('v, 'w) runtime \<Rightarrow> ('v, 'w) runtime" where
  "AddTask path req rt = rt\<lparr>goroutines := goroutines rt @ [GoAddTask path req]\<rparr>"

text \<open>\<^verbatim>\<open>Server.PanicServer\<close> of package \<^verbatim>\<open>zerver_rest\<close>: \<^verbatim>\<open>go panic(s)\<close>.\<close>

definition PanicServer :: "string \<Rightarrow> ('v, 'w) runtime \<Rightarrow> ('v, 'w) runtime" where
  "PanicServer msg rt = rt\<lparr>goroutines := goroutines rt @ [GoPanic msg]\<rparr>"

section \<open>Connection accounting and shutdown\<close>

text \<open>\<^verbatim>\<open>http.ConnState\<close>.\<close>

datatype ConnState = StateNew | StateActive | StateIdle | StateHijacked | StateClosed

text \<open>
  \<^verbatim>\<open>sync.WaitGroup\<close>: \<^verbatim>\<open>Add(1)\<close> increments the counter. \<^verbatim>\<open>Done\<close> decrements it and
  then panics when it has become negative; the decrement has been made. The left summand of
  a result is a panic together with the server as the panic leaves it.
\<close>

definition Add1 :: "('v, 'w) Server \<Rightarrow> ('v, 'w) Server" where
  "Add1 s = s\<lparr>activeConns := activeConns s + 1\<rparr>"

definition Done :: "('v, 'w) Server \<Rightarrow> panic \<times> ('v, 'w) Server + ('v, 'w) Server" where
  "Done s =
     (let s = s\<lparr>activeConns := activeConns s - 1\<rparr>
      in if activeConns s < 0 then Inl (NegativeWaitGroupCounter, s) else Inr s)"

text \<open>\<^verbatim>\<open>conn.Close()\<close>, whose error is only logged.\<close>

definition Close :: "conn \<Rightarrow> ('v, 'w) Server \<Rightarrow> ('v, 'w) Server" where
  "Close c s = s\<lparr>closedConns := closedConns s @ [c]\<rparr>"

text \<open>\<^verbatim>\<open>Server.connStateHook\<close>, called by the HTTP stack at each change of a connection.\<close>

definition connStateHook ::
  "('v, 'w) Server \<Rightarrow> conn \<Rightarrow> ConnState \<Rightarrow> panic \<times> ('v, 'w) Server + ('v, 'w) Server" where
  "connStateHook s c st =
     (case st of
        StateActive \<Rightarrow>
          (if state s = NORMAL then Inr (Add1 s) else Inr (Close c s))
      | StateIdle \<Rightarrow>
          Done (if state s = DESTROYED then Close c s else s)
      | StateHijacked \<Rightarrow> Done s
      | _ \<Rightarrow> Inr s)"

text \<open>
  What happens around the server while \<^verbatim>\<open>Destroy\<close> waits, in the order in which it
  happens: the HTTP stack reports a change of a connection; the ticker of the timeout
  delivers; the goroutine that \<^verbatim>\<open>Destroy\<close> started to wait for the counter gets to run.
\<close>

datatype event = ConnEvent conn ConnState | TimerFires | WaiterRuns

datatype 's waited = Drained 's | TimedOut 's | Waiting 's | HookPanicked panic 's

text \<open>
  \<^verbatim>\<open>s.activeConns.Wait()\<close>, called by \<^verbatim>\<open>Destroy\<close> itself, under a schedule of events: it
  returns as soon as the counter is zero. No ticker and no goroutine run in this branch,
  so their events change nothing. When the schedule ends with the counter not zero the
  call is still waiting. A negative counter is a misuse of the wait group, after which its
  documentation promises nothing: the run that the model follows ends at the panic of the
  hook, with the server as the panic leaves it.
\<close>

fun Wait :: "('v, 'w) Server \<Rightarrow> event list \<Rightarrow> ('v, 'w) Server waited" where
  "Wait s [] = (if activeConns s = 0 then Drained s else Waiting s)"
| "Wait s (e # evs) =
     (if activeConns s = 0 then Drained s
      else case e of
             ConnEvent c st \<Rightarrow>
               (case connStateHook s c st of
                  Inl (p, s') \<Rightarrow> HookPanicked p s'
                | Inr s' \<Rightarrow> Wait s' evs)
           | TimerFires \<Rightarrow> Wait s evs
           | WaiterRuns \<Rightarrow> Wait s evs)"

text \<open>
  The \<^verbatim>\<open>select\<close> of \<^verbatim>\<open>Destroy\<close> under a schedule. It races two channels: the ticker's,
  and \<open>c\<close>, which the goroutine started by \<^verbatim>\<open>Destroy\<close> closes after its
  \<^verbatim>\<open>s.activeConns.Wait()\<close> has returned. When the ticker delivers, the \<^verbatim>\<open>select\<close> takes the
  ticker's case, whatever the counter is: \<open>c\<close> is not closed yet, or the \<^verbatim>\<open>select\<close> would
  be over. When the goroutine runs and the counter is zero, its wait returns, it closes
  \<open>c\<close>, and the \<^verbatim>\<open>select\<close> takes that case; with another counter the goroutine keeps
  waiting. (When both channels are ready Go picks one case at random; the order of the
  schedule is that pick.) With the schedule at its end the \<^verbatim>\<open>select\<close> is still waiting.
\<close>

fun selectWait :: "('v, 'w) Server \<Rightarrow> event list \<Rightarrow> ('v, 'w) Server waited" where
  "selectWait s [] = Waiting s"
| "selectWait s (e # evs) =
     (case e of
        TimerFires \<Rightarrow> TimedOut s
      | WaiterRuns \<Rightarrow> (if activeConns s = 0 then Drained s else selectWait s evs)
      | ConnEvent c st \<Rightarrow>
          (case connStateHook s c st of
             Inl (p, s') \<Rightarrow> HookPanicked p s'
           | Inr s' \<Rightarrow> selectWait s' evs))"

text \<open>
  How a call of \<^verbatim>\<open>Destroy\<close> stands at the end of the schedule: it has returned a result,
  it is still blocked, or a panic has ended the run, its own or one of the hook.
\<close>

datatype 's outcome = Returns bool 's | Blocks 's | Panics panic 's

fun serverOf :: "'s outcome \<Rightarrow> 's" where
  "serverOf (Returns b s) = s"
| "serverOf (Blocks s) = s"
| "serverOf (Panics p s) = s"

text \<open>The three \<^verbatim>\<open>Destroy\<close> calls that release the resources.\<close>

definition release :: "('v, 'w) Server \<Rightarrow> ('v, 'w) Server" where
  "release s = s\<lparr>released := released s @ [RootFiltersSub, RouterSub, ComponentManagerSub]\<rparr>"

text \<open>
  \<^verbatim>\<open>Server.Destroy(timeout)\<close> under a schedule of events. The compare-and-swap of the
  state fails unless the state is normal; then false is returned. Otherwise the state is
  destroyed and the listener is closed (a nil listener panics there). \<open>isTimeout\<close> starts
  true and only the channel case of the \<^verbatim>\<open>select\<close> clears it, so the branch without a
  timeout returns false as well. \<^verbatim>\<open>time.Duration\<close> is a signed 64 bit count of
  nanoseconds, of which only the sign is read.
\<close>

definition Destroy ::
  "('v, 'w) Server \<Rightarrow> int \<Rightarrow> event list \<Rightarrow> ('v, 'w) Server outcome" where
  "Destroy s timeout evs =
     (if state s \<noteq> NORMAL then Returns False s
      else
        let s = s\<lparr>state := DESTROYED\<rparr>;
            isTimeout = True
        in case listener s of
             None \<Rightarrow> Panics NilListener s
           | Some l \<Rightarrow>
               (let s = s\<lparr>listener := Some ListenerClosed\<rparr>
                in if timeout > 0 then
                     (case selectWait s evs of
                        Drained s' \<Rightarrow> (let isTimeout = False in Returns (\<not> isTimeout) (release s'))
                      | TimedOut s' \<Rightarrow> Returns (\<not> isTimeout) (release s')
                      | Waiting s' \<Rightarrow> Blocks s'
                      | HookPanicked p s' \<Rightarrow> Panics p s')
                   else
                     (case Wait s evs of
                        Drained s' \<Rightarrow> Returns (\<not> isTimeout) (release s')
                      | TimedOut s' \<Rightarrow> Returns (\<not> isTimeout) (release s')
                      | Waiting s' \<Rightarrow> Blocks s'
                      | HookPanicked p s' \<Rightarrow> Panics p s')))"

section \<open>Components\<close>

text \<open>
  The component of the dependency test: \<^verbatim>\<open>Dep(d).Init\<close> asks the environment for the
  component named \<open>d\<close>, drops what it gets, and returns nil. In general an
  initialisation routine asks for some components by name and either returns the first
  error it gets or ignores the errors.
\<close>

record component =
  requests :: "string list"
  ignoresErrors :: bool

definition Dep :: "string \<Rightarrow> component" where
  "Dep d = \<lparr>requests = [d], ignoresErrors = True\<rparr>"

datatype cerror = ComponentNotFound string | CyclicDependency string

datatype cstate = Registered | Initializing | Initialized | Failed cerror

type_synonym registry = "string \<rightharpoonup> component \<times> cstate"

text \<open>
  Modelled from the spec: the component manager (its file is not among the sources).
  \<open>Resolve\<close> of a name never registered fails with \<open>ComponentNotFound\<close>. A component is
  marked \<open>Initializing\<close> before its routine runs; \<open>Resolve\<close> of a component that is
  \<open>Initializing\<close> fails with \<open>CyclicDependency\<close> of that name; a component whose routine
  returned an error is \<open>Failed\<close> and \<open>Resolve\<close> reports the original failure again; a
  component that is \<open>Initialized\<close> is returned and its routine does not run again. The
  third component of the result lists the failures reported by the calls of \<open>Resolve\<close>,
  in order. The first argument bounds the depth of the nested calls; \<open>None\<close> means the
  bound was reached.
\<close>

fun Resolve ::
    "nat \<Rightarrow> registry \<Rightarrow> string \<Rightarrow> (registry \<times> (cerror + component) \<times> cerror list) option"
  and runInit ::
    "nat \<Rightarrow> registry \<Rightarrow> bool \<Rightarrow> string list \<Rightarrow> (registry \<times> cerror option \<times> cerror list) option"
where
  "Resolve 0 reg name = None"
| "Resolve (Suc n) reg name =
     (case reg name of
        None \<Rightarrow> Some (reg, Inl (ComponentNotFound name), [ComponentNotFound name])
      | Some (c, st) \<Rightarrow>
          (case st of
             Initialized \<Rightarrow> Some (reg, Inr c, [])
           | Initializing \<Rightarrow> Some (reg, Inl (CyclicDependency name), [CyclicDependency name])
           | Failed e \<Rightarrow> Some (reg, Inl e, [e])
           | Registered \<Rightarrow>
               (case runInit n (reg(name \<mapsto> (c, Initializing))) (ignoresErrors c) (requests c) of
                  None \<Rightarrow> None
                | Some (reg', None, tr) \<Rightarrow> Some (reg'(name \<mapsto> (c, Initialized)), Inr c, tr)
                | Some (reg', Some e, tr) \<Rightarrow> Some (reg'(name \<mapsto> (c, Failed e)), Inl e, tr @ [e]))))"
| "runInit n reg ign [] = Some (reg, None, [])"
| "runInit n reg ign (d # ds) =
     (case Resolve n reg d of
        None \<Rightarrow> None
      | Some (reg', Inr c, tr) \<Rightarrow>
          (case runInit n reg' ign ds of
             None \<Rightarrow> None
           | Some (reg'', r, tr') \<Rightarrow> Some (reg'', r, tr @ tr'))
      | Some (reg', Inl e, tr) \<Rightarrow>
          (if ign then
             (case runInit n reg' ign ds of
                None \<Rightarrow> None
              | Some (reg'', r, tr') \<Rightarrow> Some (reg'', r, tr @ tr'))
           else Some (reg', Some e, tr)))"

section \<open>Notions used in the statements\<close>

text \<open>The request as the two branches of \<open>ServeHTTP\<close> receive it.\<close>

definition dispatched :: "('v, 'w) Server \<Rightarrow> response \<Rightarrow> request \<Rightarrow> response" where
  "dispatched s w request =
     (if webSocket request then serveWebSocket s w request else serveHTTP s w request)"

text \<open>
  The URL that \<open>serveHTTP\<close> hands to the router and to the root filters, the request
  wrapper it initialises, and the response wrapper before any status is reported.
\<close>

definition routedURL :: "request \<Rightarrow> url" where
  "routedURL request = (URL request)\<lparr>Host := RequestHost request\<rparr>"

definition wrappedRequest :: "request \<Rightarrow> indexer \<Rightarrow> request" where
  "wrappedRequest request ix = request\<lparr>URL := routedURL request, vars := ix\<rparr>"

definition wrappedResponse :: "('v, 'w) Server \<Rightarrow> response \<Rightarrow> response" where
  "wrappedResponse s w =
     (if contentType s \<noteq> CONTENTTYPE_DISABLE then SetContentType (contentType s) w else w)"

text \<open>
  A filter keeps the status when it returns the response with the status it received,
  provided the link it wraps does so. A filter stops when its result does not depend on
  the link it wraps: it does not invoke it.
\<close>

definition keepsStatus :: "Filter \<Rightarrow> bool" where
  "keepsStatus f \<longleftrightarrow>
     (\<forall>req resp next. (\<forall>q r. status (next q r) = status r) \<longrightarrow>
        status (f req resp next) = status resp)"

definition stops :: "Filter \<Rightarrow> bool" where
  "stops f \<longleftrightarrow> (\<forall>req resp next next'. f req resp next = f req resp next')"



text \<open>The server of a wait, however it ended.\<close>

fun waitedServer :: "'s waited \<Rightarrow> 's" where
  "waitedServer (Drained s) = s"
| "waitedServer (TimedOut s) = s"
| "waitedServer (Waiting s) = s"
| "waitedServer (HookPanicked p s) = s"

section \<open>A small server to run the model on\<close>

text \<open>A filter that notes its name and proceeds, and one that notes its name and stops.\<close>

definition logf :: "string \<Rightarrow> Filter" where
  "logf name req resp next = next req (resp\<lparr>body := body resp @ [name]\<rparr>)"

definition stopf :: "string \<Rightarrow> Filter" where
  "stopf name req resp next = resp\<lparr>body := body resp @ [name]\<rparr>"

definition handlerH :: FilterChain where
  "handlerH req resp = resp\<lparr>body := body resp @ [''H'']\<rparr>"

definition getOnly :: Handler where
  "getOnly m = (if m = ''GET'' then Some handlerH else None)"

text \<open>
  One route, \<^verbatim>\<open>/a\<close>, for GET only, behind the filters A and B; one task route,
  \<^verbatim>\<open>/task\<close>, whose handler appends the payload to the application's state.
\<close>

definition demoRouter :: "Filter list \<Rightarrow> (string, string list) Router" where
  "demoRouter routeFilters =
     \<lparr>MatchHandlerFilters =
        (\<lambda>u. if Path u = ''/a'' then (Some getOnly, [], routeFilters) else (None, [], [])),
      MatchWebSocketHandler = (\<lambda>u. (None, [])),
      MatchTaskHandler = (\<lambda>u. if Path u = ''/task'' then Some (\<lambda>v w. w @ [v]) else None)\<rparr>"

definition demoServer :: "Filter list \<Rightarrow> Filter list \<Rightarrow> (string, string list) Server" where
  "demoServer rootFilters routeFilters =
     \<lparr>Router = demoRouter routeFilters,
      RootFilters = (\<lambda>u. rootFilters),
      checker = (\<lambda>r. True),
      contentType = ''application/json'',
      listener = Some Accepting,
      state = NORMAL,
      activeConns = 0,
      closedConns = [],
      released = []\<rparr>"

definition demoRequest :: "string \<Rightarrow> string \<Rightarrow> request" where
  "demoRequest m p =
     \<lparr>Method = m, URL = \<lparr>Path = p, Host = []\<rparr>, RequestHost = ''localhost'',
      webSocket = False, vars = []\<rparr>"

definition w0 :: response where
  "w0 = \<lparr>status = 200, respContentType = [], body = []\<rparr>"

text \<open>The server with one connection, number 1, in service.\<close>

definition busyServer :: "(string, string list) Server" where
  "busyServer = (demoServer [] [])\<lparr>activeConns := 1\<rparr>"

text \<open>A runtime in which nothing has happened yet.\<close>

definition rt0 :: "(string, string list) runtime" where
  "rt0 = \<lparr>app = [], goroutines = []\<rparr>"

text \<open>
  The registry of the dependency test: \<^verbatim>\<open>Comp1\<close> is \<^verbatim>\<open>Dep("Comp2")\<close> and \<^verbatim>\<open>Comp2\<close> is
  \<^verbatim>\<open>Dep("Comp1")\<close>.
\<close>

definition testRegistry :: registry where
  "testRegistry = [''Comp1'' \<mapsto> (Dep ''Comp2'', Registered), ''Comp2'' \<mapsto> (Dep ''Comp1'', Registered)]"

section \<open>Lemmas about chains and dispatch\<close>

lemmas demo_defs = demoServer_def demoRouter_def demoRequest_def routedURL_def

lemma newFilterChain_append:
  "newFilterChain gs (Some (newFilterChain fs h)) = newFilterChain (gs @ fs) h"
  by (induction gs) simp_all

lemma newFilterChain_cong_prefix:
  "newFilterChain xs h = newFilterChain ys h' \<Longrightarrow>
   newFilterChain (pre @ xs) h = newFilterChain (pre @ ys) h'"
  by (induction pre) simp_all

lemma newFilterChain_stops:
  "stops f \<Longrightarrow> newFilterChain (f # post) h = newFilterChain [f] None"
  by (auto simp: stops_def fun_eq_iff)

lemma newFilterChain_keeps_status:
  "\<forall>f \<in> set fs. keepsStatus f \<Longrightarrow> (\<And>q r. status (the_h q r) = status r) \<Longrightarrow>
   status (newFilterChain fs (Some the_h) req resp) = status resp"
proof (induction fs arbitrary: req resp)
  case Nil
  then show ?case by simp
next
  case (Cons f fs)
  have "keepsStatus f" using Cons.prems(1) by simp
  moreover have "\<forall>q r. status (newFilterChain fs (Some the_h) q r) = status r"
    using Cons by simp
  ultimately show ?case by (simp add: keepsStatus_def)
qed

lemma newFilterChain_None: "newFilterChain fs None = newFilterChain fs (Some (\<lambda>q r. r))"
  by (induction fs) simp_all

lemma serveHTTP_no_route:
  "MatchHandlerFilters (Router s) (routedURL request) = (None, ix, filters) \<Longrightarrow>
   serveHTTP s w request =
     newFilterChain (RootFilters s (routedURL request) @ filters) None
       (wrappedRequest request ix) (ReportNotFound (wrappedResponse s w))"
  by (simp add: serveHTTP_def routedURL_def wrappedRequest_def wrappedResponse_def
      newFilterChain_append Let_def)

lemma serveHTTP_no_method:
  "MatchHandlerFilters (Router s) (routedURL request) = (Some h, ix, filters) \<Longrightarrow>
   h (Method request) = None \<Longrightarrow>
   serveHTTP s w request =
     newFilterChain (RootFilters s (routedURL request) @ filters) None
       (wrappedRequest request ix) (ReportMethodNotAllowed (wrappedResponse s w))"
  by (simp add: serveHTTP_def routedURL_def wrappedRequest_def wrappedResponse_def
      newFilterChain_append Let_def)

lemma serveHTTP_handler:
  "MatchHandlerFilters (Router s) (routedURL request) = (Some h, ix, filters) \<Longrightarrow>
   h (Method request) = Some c \<Longrightarrow>
   serveHTTP s w request =
     newFilterChain (RootFilters s (routedURL request) @ filters) (Some c)
       (wrappedRequest request ix) (wrappedResponse s w)"
  by (simp add: serveHTTP_def routedURL_def wrappedRequest_def wrappedResponse_def
      newFilterChain_append Let_def)


lemma keepsStatus_logf: "keepsStatus (logf n)"
  by (simp add: keepsStatus_def logf_def)

lemma status_wrappedResponse: "status (wrappedResponse s w) = status w"
  by (simp add: wrappedResponse_def SetContentType_def)

lemma stops_stopf: "stops (stopf n)"
  by (simp add: stops_def stopf_def)

lemma ServeHTTP_dispatched:
  "ServeHTTP s w request =
     dispatched s w
       (if length (Path (URL request)) > 1 \<and> last (Path (URL request)) = CHR ''/''
        then request\<lparr>URL := (URL request)\<lparr>Path := butlast (Path (URL request))\<rparr>\<rparr>
        else request)"
proof (cases "Path (URL request) = []")
  case True
  then show ?thesis by (simp add: ServeHTTP_def dispatched_def)
next
  case False
  then have "last (Path (URL request)) = Path (URL request) ! (length (Path (URL request)) - 1)"
    by (rule last_conv_nth)
  then show ?thesis
    by (simp add: ServeHTTP_def dispatched_def Let_def butlast_conv_take)
qed

section \<open>Lemmas about the hook, the waits and shutdown\<close>

lemmas run_defs = Destroy_def connStateHook_def Done_def Close_def Add1_def release_def
  busyServer_def demoServer_def NORMAL_def DESTROYED_def

lemma DESTROYED_not_NORMAL: "DESTROYED \<noteq> NORMAL"
  by (simp add: DESTROYED_def NORMAL_def)




lemma connStateHook_frame:
  "connStateHook s c st = Inr s' \<or> connStateHook s c st = Inl (p, s') \<Longrightarrow>
   state s' = state s \<and> listener s' = listener s \<and> released s' = released s"
  by (cases st)
    (auto simp: connStateHook_def Add1_def Done_def Close_def Let_def split: if_splits)


lemma Wait_count:
  "(Wait s evs = Drained s' \<longrightarrow> activeConns s' = 0) \<and>
   (Wait s evs = Waiting s' \<longrightarrow> activeConns s' \<noteq> 0) \<and>
   Wait s evs \<noteq> TimedOut s'"
proof (induction evs arbitrary: s)
  case Nil
  show ?case by auto
next
  case (Cons e evs)
  show ?case
  proof (cases "activeConns s = 0")
    case True
    then show ?thesis by auto
  next
    case False
    show ?thesis
    proof (cases e)
      case (ConnEvent c st)
      show ?thesis
      proof (cases "connStateHook s c st")
        case (Inl ps)
        with False ConnEvent show ?thesis by (cases ps) simp
      next
        case (Inr s1)
        with False ConnEvent Cons [of s1] show ?thesis by simp
      qed
    next
      case TimerFires
      with False Cons [of s] show ?thesis by simp
    next
      case WaiterRuns
      with False Cons [of s] show ?thesis by simp
    qed
  qed
qed


lemma Wait_frame:
  "state (waitedServer (Wait s evs)) = state s \<and>
   listener (waitedServer (Wait s evs)) = listener s \<and>
   released (waitedServer (Wait s evs)) = released s"
proof (induction evs arbitrary: s)
  case Nil
  show ?case by simp
next
  case (Cons e evs)
  show ?case
  proof (cases "activeConns s = 0")
    case True
    then show ?thesis by simp
  next
    case False
    show ?thesis
    proof (cases e)
      case (ConnEvent c st)
      show ?thesis
      proof (cases "connStateHook s c st")
        case (Inl ps)
        obtain p s1 where ps: "ps = (p, s1)" by (cases ps)
        with Inl have "connStateHook s c st = Inr s1 \<or> connStateHook s c st = Inl (p, s1)"
          by simp
        from connStateHook_frame [OF this] False ConnEvent Inl ps show ?thesis by simp
      next
        case (Inr s1)
        then have "connStateHook s c st = Inr s1 \<or> connStateHook s c st = Inl (undefined, s1)"
          by simp
        from connStateHook_frame [OF this] False ConnEvent Inr Cons [of s1] show ?thesis by simp
      qed
    next
      case TimerFires
      with False Cons [of s] show ?thesis by simp
    next
      case WaiterRuns
      with False Cons [of s] show ?thesis by simp
    qed
  qed
qed

lemma selectWait_frame:
  "state (waitedServer (selectWait s evs)) = state s \<and>
   listener (waitedServer (selectWait s evs)) = listener s \<and>
   released (waitedServer (selectWait s evs)) = released s"
proof (induction evs arbitrary: s)
  case Nil
  show ?case by simp
next
  case (Cons e evs)
  show ?case
  proof (cases e)
    case (ConnEvent c st)
    show ?thesis
    proof (cases "connStateHook s c st")
      case (Inl ps)
      obtain p s1 where ps: "ps = (p, s1)" by (cases ps)
      with Inl have "connStateHook s c st = Inr s1 \<or> connStateHook s c st = Inl (p, s1)"
        by simp
      from connStateHook_frame [OF this] ConnEvent Inl ps show ?thesis by simp
    next
      case (Inr s1)
      then have "connStateHook s c st = Inr s1 \<or> connStateHook s c st = Inl (undefined, s1)"
        by simp
      from connStateHook_frame [OF this] ConnEvent Inr Cons [of s1] show ?thesis by simp
    qed
  next
    case TimerFires
    then show ?thesis by simp
  next
    case WaiterRuns
    with Cons [of s] show ?thesis by simp
  qed
qed





lemma Destroy_not_normal: "state s \<noteq> NORMAL \<Longrightarrow> Destroy s timeout evs = Returns False s"
  by (simp add: Destroy_def)

lemma Destroy_nil_listener:
  "state s = NORMAL \<Longrightarrow> listener s = None \<Longrightarrow>
   Destroy s timeout evs = Panics NilListener (s\<lparr>state := DESTROYED\<rparr>)"
  by (simp add: Destroy_def)

lemma Destroy_timed:
  "state s = NORMAL \<Longrightarrow> listener s = Some l \<Longrightarrow> 0 < timeout \<Longrightarrow>
   Destroy s timeout evs =
     (case selectWait (s\<lparr>state := DESTROYED, listener := Some ListenerClosed\<rparr>) evs of
        Drained s' \<Rightarrow> Returns True (release s')
      | TimedOut s' \<Rightarrow> Returns False (release s')
      | Waiting s' \<Rightarrow> Blocks s'
      | HookPanicked p s' \<Rightarrow> Panics p s')"
  by (simp add: Destroy_def split: waited.splits)

lemma Destroy_untimed:
  "state s = NORMAL \<Longrightarrow> listener s = Some l \<Longrightarrow> timeout \<le> 0 \<Longrightarrow>
   Destroy s timeout evs =
     (case Wait (s\<lparr>state := DESTROYED, listener := Some ListenerClosed\<rparr>) evs of
        Drained s' \<Rightarrow> Returns False (release s')
      | TimedOut s' \<Rightarrow> Returns False (release s')
      | Waiting s' \<Rightarrow> Blocks s'
      | HookPanicked p s' \<Rightarrow> Panics p s')"
  by (simp add: Destroy_def split: waited.splits)

section \<open>Properties: the trailing slash\<close>

text \<open>
  C7. A request whose path is longer than one byte and ends with a slash is served as the
  request with that one slash removed from the path: both branches, and so both
  matchings of the router, receive the shortened path, and putting one slash back gives
  the original path. The root path \<^verbatim>\<open>/\<close> is served as it is.
\<close>

theorem trailing_slash_removed_once:
  "(1 < length (Path (URL request)) \<and> last (Path (URL request)) = CHR ''/'' \<longrightarrow>
      ServeHTTP s w request =
        dispatched s w (request\<lparr>URL := (URL request)\<lparr>Path := butlast (Path (URL request))\<rparr>\<rparr>)
      \<and> butlast (Path (URL request)) @ ''/'' = Path (URL request))
   \<and> (Path (URL request) = ''/'' \<longrightarrow> ServeHTTP s w request = dispatched s w request)"
proof (intro conjI impI)
  assume h: "1 < length (Path (URL request)) \<and> last (Path (URL request)) = CHR ''/''"
  then show "ServeHTTP s w request =
      dispatched s w (request\<lparr>URL := (URL request)\<lparr>Path := butlast (Path (URL request))\<rparr>\<rparr>)"
    by (simp add: ServeHTTP_dispatched)
  from h have "Path (URL request) \<noteq> []" by auto
  then have "butlast (Path (URL request)) @ [last (Path (URL request))] = Path (URL request)"
    by (rule append_butlast_last_id)
  with h show "butlast (Path (URL request)) @ ''/'' = Path (URL request)" by simp
next
  assume "Path (URL request) = ''/''"
  then show "ServeHTTP s w request = dispatched s w request"
    by (simp add: ServeHTTP_dispatched)
qed

theorem trailing_slash_removed_once_witness:
  "ServeHTTP (demoServer [] []) w0 (demoRequest ''GET'' ''/a/'')
     = dispatched (demoServer [] []) w0 (demoRequest ''GET'' ''/a'')
   \<and> ServeHTTP (demoServer [] []) w0 (demoRequest ''GET'' ''/a//'')
     = dispatched (demoServer [] []) w0 (demoRequest ''GET'' ''/a/'')
   \<and> ServeHTTP (demoServer [] []) w0 (demoRequest ''GET'' ''/'')
     = dispatched (demoServer [] []) w0 (demoRequest ''GET'' ''/'')
   \<and> body (ServeHTTP (demoServer [] []) w0 (demoRequest ''GET'' ''/a/'')) = [''H'']"
  using trailing_slash_removed_once [of "demoRequest ''GET'' ''/a/''" "demoServer [] []" w0]
    trailing_slash_removed_once [of "demoRequest ''GET'' ''/a//''" "demoServer [] []" w0]
    trailing_slash_removed_once [of "demoRequest ''GET'' ''/''" "demoServer [] []" w0]
  by (simp add: demoRequest_def dispatched_def serveHTTP_def demoServer_def demoRouter_def
      getOnly_def handlerH_def w0_def SetContentType_def CONTENTTYPE_DISABLE_def)

section \<open>Properties: the status of a request without handler\<close>

text \<open>
  C2. Let the router answer the request's URL with \<open>handler\<close>, \<open>ix\<close> and \<open>filters\<close>. When the
  path matches a route (\<open>handler\<close> is not nil) that has no function for the request's
  method, \<open>serveHTTP\<close> reports 405, which is not the "not found" status; it reports 404
  when no route matches; and when route and function exist it reports neither, the status
  is the one the wrapper started with. The filters run after the report, so the status is
  read off the final response for filters (and a handler) that keep the status. In
  package \<^verbatim>\<open>zerver_rest\<close> no filter runs in the two cases, and the response is the given
  one with status 405, respectively 404.
\<close>

theorem method_not_allowed_not_not_found:
  assumes m: "MatchHandlerFilters (Router s) (routedURL request) = (handler, ix, filters)"
  shows "((\<forall>f \<in> set (RootFilters s (routedURL request) @ filters). keepsStatus f) \<longrightarrow>
            (\<forall>h. handler = Some h \<and> h (Method request) = None \<longrightarrow>
               status (serveHTTP s w request) = 405 \<and>
               status (serveHTTP s w request) \<noteq> StatusNotFound)
          \<and> (handler = None \<longrightarrow> status (serveHTTP s w request) = 404)
          \<and> (\<forall>h c. handler = Some h \<and> h (Method request) = Some c \<and>
                 (\<forall>q r. status (c q r) = status r) \<longrightarrow>
               status (serveHTTP s w request) = status w))
       \<and> (\<forall>h. handler = Some h \<and> h (Method request) = None \<longrightarrow>
             serveHTTP_rest (Router s) w request = ReportStatus 405 w)
       \<and> (handler = None \<longrightarrow> serveHTTP_rest (Router s) w request = ReportStatus 404 w)"
proof (intro conjI impI allI)
  fix h
  assume k: "\<forall>f \<in> set (RootFilters s (routedURL request) @ filters). keepsStatus f"
    and h: "handler = Some h \<and> h (Method request) = None"
  have e: "serveHTTP s w request =
      newFilterChain (RootFilters s (routedURL request) @ filters) (Some (\<lambda>q r. r))
        (wrappedRequest request ix) (ReportMethodNotAllowed (wrappedResponse s w))"
    using serveHTTP_no_method [of s request h ix filters w] m h
    by (simp add: newFilterChain_None)
  have "status (serveHTTP s w request) = status (ReportMethodNotAllowed (wrappedResponse s w))"
    unfolding e using k by (rule newFilterChain_keeps_status) simp
  then show "status (serveHTTP s w request) = 405"
    and "status (serveHTTP s w request) \<noteq> StatusNotFound"
    by (simp_all add: ReportMethodNotAllowed_def ReportStatus_def StatusMethodNotAllowed_def
        StatusNotFound_def)
next
  assume k: "\<forall>f \<in> set (RootFilters s (routedURL request) @ filters). keepsStatus f"
    and h: "handler = None"
  have e: "serveHTTP s w request =
      newFilterChain (RootFilters s (routedURL request) @ filters) (Some (\<lambda>q r. r))
        (wrappedRequest request ix) (ReportNotFound (wrappedResponse s w))"
    using serveHTTP_no_route [of s request ix filters w] m h
    by (simp add: newFilterChain_None)
  have "status (serveHTTP s w request) = status (ReportNotFound (wrappedResponse s w))"
    unfolding e using k by (rule newFilterChain_keeps_status) simp
  then show "status (serveHTTP s w request) = 404"
    by (simp add: ReportNotFound_def ReportStatus_def StatusNotFound_def)
next
  fix h c
  assume k: "\<forall>f \<in> set (RootFilters s (routedURL request) @ filters). keepsStatus f"
    and h: "handler = Some h \<and> h (Method request) = Some c \<and> (\<forall>q r. status (c q r) = status r)"
  have e: "serveHTTP s w request =
      newFilterChain (RootFilters s (routedURL request) @ filters) (Some c)
        (wrappedRequest request ix) (wrappedResponse s w)"
    using serveHTTP_handler [of s request h ix filters c w] m h by simp
  have "status (serveHTTP s w request) = status (wrappedResponse s w)"
    unfolding e using k by (rule newFilterChain_keeps_status) (simp add: h)
  then show "status (serveHTTP s w request) = status w"
    by (simp add: status_wrappedResponse)
next
  fix h
  assume "handler = Some h \<and> h (Method request) = None"
  with m show "serveHTTP_rest (Router s) w request = ReportStatus 405 w"
    by (simp add: serveHTTP_rest_def routedURL_def StatusMethodNotAllowed_def)
next
  assume "handler = None"
  with m show "serveHTTP_rest (Router s) w request = ReportStatus 404 w"
    by (simp add: serveHTTP_rest_def routedURL_def StatusNotFound_def)
qed

theorem method_not_allowed_not_not_found_witness:
  "status (serveHTTP (demoServer [logf ''C''] [logf ''A'', logf ''B'']) w0
      (demoRequest ''POST'' ''/a'')) = 405
   \<and> status (serveHTTP (demoServer [logf ''C''] [logf ''A'', logf ''B'']) w0
      (demoRequest ''GET'' ''/b'')) = 404
   \<and> status (serveHTTP (demoServer [logf ''C''] [logf ''A'', logf ''B'']) w0
      (demoRequest ''GET'' ''/a'')) = 200
   \<and> serveHTTP_rest (demoRouter [logf ''A'', logf ''B'']) w0 (demoRequest ''POST'' ''/a'')
      = ReportStatus 405 w0
   \<and> serveHTTP_rest (demoRouter [logf ''A'', logf ''B'']) w0 (demoRequest ''GET'' ''/b'')
      = ReportStatus 404 w0"
proof -
  let ?s = "demoServer [logf ''C''] [logf ''A'', logf ''B'']"
  have m1: "MatchHandlerFilters (Router ?s) (routedURL (demoRequest ''POST'' ''/a''))
      = (Some getOnly, [], [logf ''A'', logf ''B''])"
    by (simp add: demo_defs)
  have m2: "MatchHandlerFilters (Router ?s) (routedURL (demoRequest ''GET'' ''/b''))
      = (None, [], [])"
    by (simp add: demo_defs)
  have m3: "MatchHandlerFilters (Router ?s) (routedURL (demoRequest ''GET'' ''/a''))
      = (Some getOnly, [], [logf ''A'', logf ''B''])"
    by (simp add: demo_defs)
  have k: "\<forall>f \<in> set (RootFilters ?s u @ [logf ''A'', logf ''B'']). keepsStatus f" for u
    by (simp add: demoServer_def keepsStatus_logf)
  have k2: "\<forall>f \<in> set (RootFilters ?s u @ []). keepsStatus f" for u
    by (simp add: demoServer_def keepsStatus_logf)
  have r: "Router ?s = demoRouter [logf ''A'', logf ''B'']"
    by (simp add: demoServer_def)
  have hH: "\<forall>q r. status (handlerH q r) = status r"
    by (simp add: handlerH_def)
  show ?thesis
    using method_not_allowed_not_not_found [OF m1, of w0]
      method_not_allowed_not_not_found [OF m2, of w0]
      method_not_allowed_not_not_found [OF m3, of w0] k k2 hH
    by (simp add: r getOnly_def demoRequest_def w0_def)
qed

section \<open>Properties: the order of filters and handler\<close>

text \<open>
  C3. For a request whose route has a function \<open>H\<close> for the method, \<open>serveHTTP\<close> runs one
  chain: the root filters, then the route filters, then \<open>H\<close>. Wherever a filter \<open>f\<close> stands
  in that sequence, the link it receives is the chain of the filters after it around \<open>H\<close>:
  each root filter wraps the next, the last root filter wraps the first route filter, the
  last route filter wraps \<open>H\<close>. When \<open>f\<close> does not invoke its link, the response is the
  one of the chain that ends with \<open>f\<close>: nothing after \<open>f\<close>, filter or handler, has run.
\<close>

theorem filters_wrap_in_order:
  assumes m: "MatchHandlerFilters (Router s) (routedURL request) = (Some h, ix, filters)"
    and c: "h (Method request) = Some H"
  shows "serveHTTP s w request =
           newFilterChain (RootFilters s (routedURL request) @ filters) (Some H)
             (wrappedRequest request ix) (wrappedResponse s w)
       \<and> (\<forall>pre f post. RootFilters s (routedURL request) @ filters = pre @ f # post \<longrightarrow>
             newFilterChain (RootFilters s (routedURL request) @ filters) (Some H) =
               newFilterChain pre (Some (\<lambda>q r. f q r (newFilterChain post (Some H)))))
       \<and> (\<forall>pre f post. RootFilters s (routedURL request) @ filters = pre @ f # post \<and> stops f \<longrightarrow>
             serveHTTP s w request =
               newFilterChain (pre @ [f]) None (wrappedRequest request ix) (wrappedResponse s w))"
proof (intro conjI allI impI)
  show e: "serveHTTP s w request =
      newFilterChain (RootFilters s (routedURL request) @ filters) (Some H)
        (wrappedRequest request ix) (wrappedResponse s w)"
    using m c by (rule serveHTTP_handler)
  {
    fix pre f post
    assume d: "RootFilters s (routedURL request) @ filters = pre @ f # post"
    have "newFilterChain (pre @ f # post) (Some H) =
        newFilterChain pre (Some (newFilterChain (f # post) (Some H)))"
      by (rule newFilterChain_append [symmetric])
    then show "newFilterChain (RootFilters s (routedURL request) @ filters) (Some H) =
        newFilterChain pre (Some (\<lambda>q r. f q r (newFilterChain post (Some H))))"
      by (simp add: d)
  }
  {
    fix pre f post
    assume d: "RootFilters s (routedURL request) @ filters = pre @ f # post \<and> stops f"
    then have "stops f" by simp
    then have "newFilterChain (f # post) (Some H) = newFilterChain [f] None"
      by (rule newFilterChain_stops)
    then have "newFilterChain (pre @ f # post) (Some H) = newFilterChain (pre @ [f]) None"
      by (rule newFilterChain_cong_prefix)
    then show "serveHTTP s w request =
        newFilterChain (pre @ [f]) None (wrappedRequest request ix) (wrappedResponse s w)"
      using e d by simp
  }
qed

theorem filters_wrap_in_order_witness:
  "body (serveHTTP (demoServer [logf ''C''] [logf ''A'', logf ''B'']) w0
      (demoRequest ''GET'' ''/a'')) = [''C'', ''A'', ''B'', ''H'']
   \<and> body (serveHTTP (demoServer [logf ''C''] [stopf ''A'', logf ''B'']) w0
      (demoRequest ''GET'' ''/a'')) = [''C'', ''A'']"
proof -
  let ?s = "demoServer [logf ''C''] [logf ''A'', logf ''B'']"
  let ?t = "demoServer [logf ''C''] [stopf ''A'', logf ''B'']"
  let ?r = "demoRequest ''GET'' ''/a''"
  have ms: "MatchHandlerFilters (Router ?s) (routedURL ?r) = (Some getOnly, [], [logf ''A'', logf ''B''])"
    by (simp add: demo_defs)
  have mt: "MatchHandlerFilters (Router ?t) (routedURL ?r) = (Some getOnly, [], [stopf ''A'', logf ''B''])"
    by (simp add: demo_defs)
  have c: "getOnly (Method ?r) = Some handlerH"
    by (simp add: getOnly_def demoRequest_def)
  have d: "RootFilters ?t (routedURL ?r) @ [stopf ''A'', logf ''B''] = [logf ''C''] @ stopf ''A'' # [logf ''B'']"
    by (simp add: demoServer_def)
  have 1: "body (serveHTTP ?s w0 ?r) = [''C'', ''A'', ''B'', ''H'']"
    using filters_wrap_in_order [OF ms c, of w0]
    by (simp add: demoServer_def logf_def handlerH_def wrappedResponse_def SetContentType_def w0_def)
  have 2: "body (serveHTTP ?t w0 ?r) = [''C'', ''A'']"
    using filters_wrap_in_order [OF mt c, of w0] d stops_stopf [of "''A''"]
    by (simp add: logf_def stopf_def wrappedResponse_def SetContentType_def w0_def demoServer_def)
  from 1 2 show ?thesis by simp
qed

section \<open>Properties: the chain of a request without handler\<close>

text \<open>
  C9, as the code has it. When no handler is found, \<open>serveHTTP\<close> itself reports the status
  first, 404 without a route and 405 without a function for the method, and then runs the
  root filters and the route filters around a nil link, which does nothing: no function
  of any handler takes part in the response.
\<close>

theorem no_handler_reports_then_runs_filters:
  assumes m: "MatchHandlerFilters (Router s) (routedURL request) = (handler, ix, filters)"
  shows "(handler = None \<longrightarrow>
            serveHTTP s w request =
              newFilterChain (RootFilters s (routedURL request) @ filters) None
                (wrappedRequest request ix) (ReportStatus 404 (wrappedResponse s w)))
       \<and> (\<forall>h. handler = Some h \<and> h (Method request) = None \<longrightarrow>
            serveHTTP s w request =
              newFilterChain (RootFilters s (routedURL request) @ filters) None
                (wrappedRequest request ix) (ReportStatus 405 (wrappedResponse s w)))"
  using m serveHTTP_no_route [of s request ix filters w]
    serveHTTP_no_method [of s request _ ix filters w]
  by (auto simp: ReportNotFound_def ReportMethodNotAllowed_def StatusNotFound_def
      StatusMethodNotAllowed_def)

theorem no_handler_reports_then_runs_filters_witness:
  "serveHTTP (demoServer [stopf ''C''] []) w0 (demoRequest ''GET'' ''/b'')
     = \<lparr>status = 404, respContentType = ''application/json'', body = [''C'']\<rparr>
   \<and> serveHTTP (demoServer [logf ''C''] [logf ''A'']) w0 (demoRequest ''POST'' ''/a'')
     = \<lparr>status = 405, respContentType = ''application/json'', body = [''C'', ''A'']\<rparr>"
proof -
  let ?s = "demoServer [stopf ''C''] []"
  let ?t = "demoServer [logf ''C''] [logf ''A'']"
  have ms: "MatchHandlerFilters (Router ?s) (routedURL (demoRequest ''GET'' ''/b'')) = (None, [], [])"
    by (simp add: demo_defs)
  have mt: "MatchHandlerFilters (Router ?t) (routedURL (demoRequest ''POST'' ''/a''))
      = (Some getOnly, [], [logf ''A''])"
    by (simp add: demo_defs)
  have c: "getOnly (Method (demoRequest ''POST'' ''/a'')) = None"
    by (simp add: getOnly_def demoRequest_def)
  show ?thesis
    using no_handler_reports_then_runs_filters [OF ms, of w0]
      no_handler_reports_then_runs_filters [OF mt, of w0] c
    by (simp add: demoServer_def logf_def stopf_def wrappedResponse_def SetContentType_def
        ReportStatus_def w0_def CONTENTTYPE_DISABLE_def)
qed

text \<open>
  C9 as stated makes the report the terminal action of the composed chain. A root filter
  that stops shows the difference: the terminal link is never reached, so a chain ending
  in the report leaves the status 200, while \<open>serveHTTP\<close> has reported 404 before the
  filter ran.
\<close>

theorem status_report_is_not_the_terminal_link:
  "status (serveHTTP (demoServer [stopf ''C''] []) w0 (demoRequest ''GET'' ''/b'')) = 404
   \<and> status (newFilterChain (RootFilters (demoServer [stopf ''C''] []) (routedURL (demoRequest ''GET'' ''/b'')) @ [])
        (Some (\<lambda>req. ReportNotFound))
        (wrappedRequest (demoRequest ''GET'' ''/b'') [])
        (wrappedResponse (demoServer [stopf ''C''] []) w0)) = 200
   \<and> serveHTTP (demoServer [stopf ''C''] []) w0 (demoRequest ''GET'' ''/b'')
     \<noteq> newFilterChain (RootFilters (demoServer [stopf ''C''] []) (routedURL (demoRequest ''GET'' ''/b'')) @ [])
        (Some (\<lambda>req. ReportNotFound))
        (wrappedRequest (demoRequest ''GET'' ''/b'') [])
        (wrappedResponse (demoServer [stopf ''C''] []) w0)"
  by (simp add: serveHTTP_def demo_defs stopf_def wrappedResponse_def SetContentType_def
      ReportNotFound_def ReportStatus_def StatusNotFound_def w0_def CONTENTTYPE_DISABLE_def)

section \<open>Properties: shutdown\<close>




text \<open>
  C5. A call of \<open>Destroy\<close> in a state other than normal changes nothing and returns false.
  A call in normal state leaves the state destroyed, whether the call has returned, is
  still blocked or has panicked, and it has closed the listener (when there is one) also
  while it is still blocked; every later call finds the state destroyed, changes nothing
  and returns false. The hook never writes the state. So the state goes from normal to
  destroyed once and never back.
\<close>

theorem shutdown_transitions_once:
  "(state s \<noteq> NORMAL \<longrightarrow> Destroy s timeout evs = Returns False s)
   \<and> (state s = NORMAL \<longrightarrow>
        state (serverOf (Destroy s timeout evs)) = DESTROYED
      \<and> (\<forall>l. listener s = Some l \<longrightarrow>
            listener (serverOf (Destroy s timeout evs)) = Some ListenerClosed)
      \<and> Destroy (serverOf (Destroy s timeout evs)) timeout' evs' =
            Returns False (serverOf (Destroy s timeout evs)))
   \<and> (\<forall>c st s'. connStateHook s c st = Inr s' \<longrightarrow> state s' = state s)"
proof (intro conjI impI allI)
  assume "state s \<noteq> NORMAL"
  then show "Destroy s timeout evs = Returns False s" by (rule Destroy_not_normal)
next
  fix c st s'
  assume "connStateHook s c st = Inr s'"
  then have "connStateHook s c st = Inr s' \<or> connStateHook s c st = Inl (undefined, s')"
    by simp
  from connStateHook_frame [OF this] show "state s' = state s" by simp
next
  let ?s = "s\<lparr>state := DESTROYED, listener := Some ListenerClosed\<rparr>"
  assume n: "state s = NORMAL"
  have d: "state (serverOf (Destroy s timeout evs)) = DESTROYED \<and>
      (\<forall>l. listener s = Some l \<longrightarrow>
         listener (serverOf (Destroy s timeout evs)) = Some ListenerClosed)"
  proof (cases "listener s")
    case None
    with n show ?thesis by (simp add: Destroy_nil_listener)
  next
    case (Some l)
    show ?thesis
    proof (cases "0 < timeout")
      case True
      with n Some selectWait_frame [of ?s evs] show ?thesis
        by (cases "selectWait ?s evs") (simp_all add: Destroy_timed release_def)
    next
      case False
      with n Some Wait_frame [of ?s evs] show ?thesis
        by (cases "Wait ?s evs") (simp_all add: Destroy_untimed release_def)
    qed
  qed
  then show "state (serverOf (Destroy s timeout evs)) = DESTROYED" by simp
  then have "state (serverOf (Destroy s timeout evs)) \<noteq> NORMAL"
    by (simp add: DESTROYED_not_NORMAL)
  then show "Destroy (serverOf (Destroy s timeout evs)) timeout' evs' =
      Returns False (serverOf (Destroy s timeout evs))"
    by (rule Destroy_not_normal)
  fix l
  assume "listener s = Some l"
  with d show "listener (serverOf (Destroy s timeout evs)) = Some ListenerClosed" by simp
qed

theorem shutdown_transitions_once_witness:
  "Destroy (busyServer\<lparr>state := DESTROYED\<rparr>) 5 [ConnEvent 1 StateIdle] =
     Returns False (busyServer\<lparr>state := DESTROYED\<rparr>)
   \<and> state (serverOf (Destroy busyServer 5 [TimerFires])) = DESTROYED
   \<and> listener (serverOf (Destroy busyServer 5 [TimerFires])) = Some ListenerClosed
   \<and> Destroy (serverOf (Destroy busyServer 5 [TimerFires])) 0 [ConnEvent 1 StateIdle] =
       Returns False (serverOf (Destroy busyServer 5 [TimerFires]))"
proof -
  have n: "state busyServer = NORMAL" and l: "listener busyServer = Some Accepting"
    by (simp_all add: busyServer_def demoServer_def)
  have d: "state (busyServer\<lparr>state := DESTROYED\<rparr>) \<noteq> NORMAL"
    by (simp add: DESTROYED_not_NORMAL)
  have 1: "Destroy (busyServer\<lparr>state := DESTROYED\<rparr>) 5 [ConnEvent 1 StateIdle] =
     Returns False (busyServer\<lparr>state := DESTROYED\<rparr>)"
    using shutdown_transitions_once
      [of "busyServer\<lparr>state := DESTROYED\<rparr>" 5 "[ConnEvent 1 StateIdle]"] d
    by blast
  have 2: "state (serverOf (Destroy busyServer 5 [TimerFires])) = DESTROYED
   \<and> listener (serverOf (Destroy busyServer 5 [TimerFires])) = Some ListenerClosed
   \<and> Destroy (serverOf (Destroy busyServer 5 [TimerFires])) 0 [ConnEvent 1 StateIdle] =
       Returns False (serverOf (Destroy busyServer 5 [TimerFires]))"
    using shutdown_transitions_once [of busyServer 5 "[TimerFires]" 0 "[ConnEvent 1 StateIdle]"] n l
    by blast
  from 1 2 show ?thesis by simp
qed

text \<open>
  C6. When a call of \<open>Destroy\<close> that made the transition returns, with true or with false,
  the root filters, the router and the component manager have been released, in this
  order; while the call is blocked nothing has been released. In particular, when the
  ticker delivers while connections are tracked, the call returns false and the three
  are released.
\<close>

theorem shutdown_always_releases:
  assumes n: "state s = NORMAL"
  shows
    "(\<forall>b s'. Destroy s timeout evs = Returns b s' \<longrightarrow>
        released s' = released s @ [RootFiltersSub, RouterSub, ComponentManagerSub])
   \<and> (\<forall>s'. Destroy s timeout evs = Blocks s' \<longrightarrow> released s' = released s)
   \<and> (\<forall>l. listener s = Some l \<and> 0 < timeout \<and> 0 < activeConns s \<longrightarrow>
        Destroy s timeout (TimerFires # evs) =
          Returns False (release (s\<lparr>state := DESTROYED, listener := Some ListenerClosed\<rparr>)))"
proof (intro conjI impI allI)
  let ?s = "s\<lparr>state := DESTROYED, listener := Some ListenerClosed\<rparr>"
  {
    fix b s'
    assume r: "Destroy s timeout evs = Returns b s'"
    then obtain l where l: "listener s = Some l"
      using n by (cases "listener s") (simp_all add: Destroy_nil_listener)
    show "released s' = released s @ [RootFiltersSub, RouterSub, ComponentManagerSub]"
    proof (cases "0 < timeout")
      case True
      with n l r selectWait_frame [of ?s evs] show ?thesis
        by (cases "selectWait ?s evs") (auto simp: Destroy_timed release_def)
    next
      case False
      with n l r Wait_frame [of ?s evs] show ?thesis
        by (cases "Wait ?s evs") (auto simp: Destroy_untimed release_def)
    qed
  }
  {
    fix s'
    assume r: "Destroy s timeout evs = Blocks s'"
    then obtain l where l: "listener s = Some l"
      using n by (cases "listener s") (simp_all add: Destroy_nil_listener)
    show "released s' = released s"
    proof (cases "0 < timeout")
      case True
      with n l r selectWait_frame [of ?s evs] show ?thesis
        by (cases "selectWait ?s evs") (auto simp: Destroy_timed release_def)
    next
      case False
      with n l r Wait_frame [of ?s evs] show ?thesis
        by (cases "Wait ?s evs") (auto simp: Destroy_untimed release_def)
    qed
  }
  {
    fix l
    assume "listener s = Some l \<and> 0 < timeout \<and> 0 < activeConns s"
    with n show "Destroy s timeout (TimerFires # evs) = Returns False (release ?s)"
      by (simp add: Destroy_timed)
  }
qed

theorem shutdown_always_releases_witness:
  "Destroy busyServer 5 [TimerFires] =
      Returns False (release (busyServer\<lparr>state := DESTROYED, listener := Some ListenerClosed\<rparr>))
   \<and> released (release (busyServer\<lparr>state := DESTROYED, listener := Some ListenerClosed\<rparr>)) =
      [RootFiltersSub, RouterSub, ComponentManagerSub]
   \<and> Destroy busyServer 5 [ConnEvent 1 StateIdle, WaiterRuns] =
      Returns True (release (busyServer\<lparr>state := DESTROYED, listener := Some ListenerClosed,
        activeConns := 0, closedConns := [1]\<rparr>))
   \<and> released (release (busyServer\<lparr>state := DESTROYED, listener := Some ListenerClosed,
        activeConns := 0, closedConns := [1]\<rparr>)) =
      [RootFiltersSub, RouterSub, ComponentManagerSub]
   \<and> Destroy busyServer 5 [] =
      Blocks (busyServer\<lparr>state := DESTROYED, listener := Some ListenerClosed\<rparr>)
   \<and> released (busyServer\<lparr>state := DESTROYED, listener := Some ListenerClosed\<rparr>) = []"
proof -
  let ?t = "busyServer\<lparr>state := DESTROYED, listener := Some ListenerClosed\<rparr>"
  let ?d = "busyServer\<lparr>state := DESTROYED, listener := Some ListenerClosed,
       activeConns := 0, closedConns := [1]\<rparr>"
  have n: "state busyServer = NORMAL" and l: "listener busyServer = Some Accepting"
    and a: "0 < activeConns busyServer" and r: "released busyServer = []"
    by (simp_all add: busyServer_def demoServer_def)
  have 1: "Destroy busyServer 5 [TimerFires] = Returns False (release ?t)"
    using shutdown_always_releases [OF n, of 5 "[]"] l a by simp
  then have 2: "released (release ?t) = [RootFiltersSub, RouterSub, ComponentManagerSub]"
    using shutdown_always_releases [OF n, of 5 "[TimerFires]"] r by auto
  have 3: "Destroy busyServer 5 [ConnEvent 1 StateIdle, WaiterRuns] = Returns True (release ?d)"
    by (simp add: run_defs)
  then have 4: "released (release ?d) = [RootFiltersSub, RouterSub, ComponentManagerSub]"
    using shutdown_always_releases [OF n, of 5 "[ConnEvent 1 StateIdle, WaiterRuns]"] r by auto
  have 5: "Destroy busyServer 5 [] = Blocks ?t"
    by (simp add: run_defs)
  then have 6: "released ?t = []"
    using shutdown_always_releases [OF n, of 5 "[]"] r by auto
  from 1 2 3 4 5 6 show ?thesis by simp
qed

section \<open>Properties: the hook after shutdown\<close>


section \<open>Properties: tasks\<close>

text \<open>
  C8, as the code has it. \<open>StartTask\<close> calls the handler matched for the path with the
  value and returns when the handler has returned: on return the handler's effect on the
  application's state is there and no goroutine has been started. Without a handler for
  the path the call panics.
\<close>

theorem start_task_runs_handler_before_returning:
  "(\<forall>h. MatchTaskHandler (Router s) \<lparr>Path = path, Host = []\<rparr> = Some h \<longrightarrow>
       StartTask s path v rt = Inr (rt\<lparr>app := h v (app rt)\<rparr>)
     \<and> goroutines (rt\<lparr>app := h v (app rt)\<rparr>) = goroutines rt)
   \<and> (MatchTaskHandler (Router s) \<lparr>Path = path, Host = []\<rparr> = None \<longrightarrow>
       StartTask s path v rt = Inl (NoTaskHandler path))"
  by (simp add: StartTask_def)

theorem start_task_runs_handler_before_returning_witness:
  "StartTask (demoServer [] []) ''/task'' ''x'' rt0 = Inr \<lparr>app = [''x''], goroutines = []\<rparr>
   \<and> StartTask (demoServer [] []) ''/none'' ''x'' rt0 = Inl (NoTaskHandler ''/none'')"
proof -
  have 1: "MatchTaskHandler (Router (demoServer [] [])) \<lparr>Path = ''/task'', Host = []\<rparr>
      = Some (\<lambda>v w. w @ [v])"
    by (simp add: demoServer_def demoRouter_def)
  have 2: "MatchTaskHandler (Router (demoServer [] [])) \<lparr>Path = ''/none'', Host = []\<rparr> = None"
    by (simp add: demoServer_def demoRouter_def)
  show ?thesis
    using start_task_runs_handler_before_returning [of "demoServer [] []" "''/task''" "''x''" rt0]
      start_task_runs_handler_before_returning [of "demoServer [] []" "''/none''" "''x''" rt0]
    by (simp add: 1 2 rt0_def)
qed

text \<open>
  C8 as stated has the handler fired as a background task. A call that only started a
  goroutine, as \<open>AddTask\<close> of package \<^verbatim>\<open>zerver_rest\<close> does, would return with the
  application's state untouched and the goroutine pending; \<open>StartTask\<close> returns with the
  payload already handled and nothing pending.
\<close>

theorem start_task_starts_no_goroutine:
  "StartTask (demoServer [] []) ''/task'' ''x'' rt0 = Inr \<lparr>app = [''x''], goroutines = []\<rparr>
   \<and> AddTask ''/task'' ''x'' rt0 = \<lparr>app = [], goroutines = [GoAddTask ''/task'' ''x'']\<rparr>
   \<and> StartTask (demoServer [] []) ''/task'' ''x'' rt0 \<noteq> Inr (AddTask ''/task'' ''x'' rt0)"
  by (simp add: StartTask_def AddTask_def demoServer_def demoRouter_def rt0_def)

section \<open>Properties: cyclic dependencies\<close>

text \<open>
  C1. In a registry in which \<open>A\<close> and \<open>B\<close> are registered, the routine of \<open>A\<close> asks for \<open>B\<close>
  and the routine of \<open>B\<close> asks for \<open>A\<close>, resolving \<open>A\<close> returns for every bound of at least
  three nested calls, and the failures reported on the way are exactly
  \<open>CyclicDependency A\<close>: the inner call for \<open>A\<close>, which finds \<open>A\<close> initialising, fails with
  it. When no routine ignores errors the call for \<open>A\<close> itself fails with it; when the
  routine of \<open>A\<close> ignores errors, as \<^verbatim>\<open>Dep\<close> does, the call for \<open>A\<close> returns the component.
  The hypotheses are symmetric in \<open>A\<close> and \<open>B\<close>, so the same holds for resolving \<open>B\<close>.
\<close>

theorem cyclic_dependency_is_reported:
  assumes a: "reg A = Some (ca, Registered)" and ra: "requests ca = [B]"
    and b: "reg B = Some (cb, Registered)" and rb: "requests cb = [A]"
    and ne: "A \<noteq> B"
  shows "\<exists>reg' r tr. Resolve (Suc (Suc (Suc n))) reg A = Some (reg', r, tr)
           \<and> set tr = {CyclicDependency A}
           \<and> (ignoresErrors ca \<longrightarrow> r = Inr ca)
           \<and> (\<not> ignoresErrors ca \<and> \<not> ignoresErrors cb \<longrightarrow> r = Inl (CyclicDependency A))"
  using a ra b rb ne by (cases "ignoresErrors ca"; cases "ignoresErrors cb") simp_all

theorem cyclic_dependency_is_reported_witness:
  "Resolve 3 testRegistry ''Comp1'' =
     Some ([''Comp1'' \<mapsto> (Dep ''Comp2'', Initialized), ''Comp2'' \<mapsto> (Dep ''Comp1'', Initialized)],
           Inr (Dep ''Comp2''), [CyclicDependency ''Comp1''])
   \<and> Resolve 3 testRegistry ''Comp2'' =
     Some ([''Comp1'' \<mapsto> (Dep ''Comp2'', Initialized), ''Comp2'' \<mapsto> (Dep ''Comp1'', Initialized)],
           Inr (Dep ''Comp1''), [CyclicDependency ''Comp2''])"
proof -
  have 1: "testRegistry ''Comp1'' = Some (Dep ''Comp2'', Registered)"
    and 2: "testRegistry ''Comp2'' = Some (Dep ''Comp1'', Registered)"
    and 3: "requests (Dep ''Comp2'') = [''Comp2'']" and 4: "requests (Dep ''Comp1'') = [''Comp1'']"
    and 5: "''Comp1'' \<noteq> ''Comp2''" and 6: "''Comp2'' \<noteq> ''Comp1''"
    by (simp_all add: testRegistry_def Dep_def)
  have e1: "Resolve 3 testRegistry ''Comp1'' =
     Some ([''Comp1'' \<mapsto> (Dep ''Comp2'', Initialized), ''Comp2'' \<mapsto> (Dep ''Comp1'', Initialized)],
           Inr (Dep ''Comp2''), [CyclicDependency ''Comp1''])"
    by (simp add: testRegistry_def Dep_def numeral_3_eq_3 fun_upd_twist)
  have e2: "Resolve 3 testRegistry ''Comp2'' =
     Some ([''Comp1'' \<mapsto> (Dep ''Comp2'', Initialized), ''Comp2'' \<mapsto> (Dep ''Comp1'', Initialized)],
           Inr (Dep ''Comp1''), [CyclicDependency ''Comp2''])"
    by (simp add: testRegistry_def Dep_def numeral_3_eq_3 fun_upd_twist)
  from cyclic_dependency_is_reported [OF 1 3 2 4 5, of 0]
    cyclic_dependency_is_reported [OF 2 4 1 3 6, of 0] e1 e2
  show ?thesis by simp
qed

end
